theory Spec2Isabelle
  imports Main "HOL-Library.Word"
begin

unbundle bit_operations_syntax

section \<open>Data model\<close>

text \<open>
  The job manager of \<^verbatim>\<open>taipy/job/job_manager.py\<close> is a class of class methods over one
  class-level \<^verbatim>\<open>JobRepository\<close>. The classes \<^verbatim>\<open>Job\<close>, \<^verbatim>\<open>Task\<close> and
  \<^verbatim>\<open>JobRepository\<close> and the exceptions are imported by the module; their behaviour is
  taken from the specification where the manager relies on it.
\<close>

text \<open>A task is an opaque identity (specification, section 1 and 4.2).\<close>

datatype task = Task (task_id: string)

text \<open>Callbacks are opaque handles of callables.\<close>

datatype callback = Callback nat

text \<open>The lifecycle states of section 4.2.\<close>

datatype status = SUBMITTED | BLOCKED | PENDING | RUNNING | COMPLETED | FAILED | CANCELED

record job =
  job_id :: string
  task :: task
  status :: status
  creation_timestamp :: nat
  subscribers :: "callback list"

datatype error =
    ModelNotFound string
  | NonExistingJob string
  | JobNotDeletedException string
  | ValueError

datatype log_level = WARNING | ERROR

datatype log_message = Text string | Exc error

type_synonym log_record = "log_level \<times> log_message"

section \<open>The Job entity\<close>

text \<open>
  Modelled from the spec: the constructor of \<^verbatim>\<open>Job\<close> (class absent from the sources).
  A job starts in the first lifecycle state, with the creation timestamp it is given and no
  subscriber.
\<close>

definition Job :: "string \<Rightarrow> task \<Rightarrow> nat \<Rightarrow> job" where
  "Job i t now =
     \<lparr>job_id = i, task = t, status = SUBMITTED, creation_timestamp = now, subscribers = []\<rparr>"

text \<open>
  Modelled from the spec: \<^verbatim>\<open>Job.is_finished\<close> (absent), true exactly for the terminal
  states COMPLETED, FAILED and CANCELED.
\<close>

definition is_finished :: "job \<Rightarrow> bool" where
  "is_finished j = (status j = COMPLETED \<or> status j = FAILED \<or> status j = CANCELED)"

text \<open>
  Modelled from the spec: \<^verbatim>\<open>Job.on_status_change\<close> (absent), which registers each given
  callable as a subscriber, in registration order.
\<close>

definition on_status_change :: "job \<Rightarrow> callback list \<Rightarrow> job" where
  "on_status_change j callbacks = j\<lparr>subscribers := subscribers j @ callbacks\<rparr>"

text \<open>
  Modelled from the spec: the task-membership predicate \<^verbatim>\<open>task in job\<close> (absent), an exact
  match of the job's task reference.
\<close>

definition job_contains :: "job \<Rightarrow> task \<Rightarrow> bool" where
  "job_contains j t = (task j = t)"

text \<open>
  Modelled from the spec: the job ordering (absent), the order of the creation timestamps.
\<close>

definition job_gt :: "job \<Rightarrow> job \<Rightarrow> bool" where
  "job_gt a b = (creation_timestamp a > creation_timestamp b)"

section \<open>The repository\<close>

text \<open>
  Modelled from the spec: \<^verbatim>\<open>JobRepository\<close> (absent), the key-addressed store of
  section 6. A record is a snapshot of the job saved under its identity; the store keeps
  one record for each identity. The repository also keeps the sequence of the calls it has
  served, so that the writes and reads of an operation can be counted.
\<close>

datatype repo_call = Save job | Load string | LoadAll | Delete string | DeleteAll

record job_repository =
  store :: "(string \<times> job) list"
  calls :: "repo_call list"

fun upsert :: "string \<Rightarrow> job \<Rightarrow> (string \<times> job) list \<Rightarrow> (string \<times> job) list" where
  "upsert k v [] = [(k, v)]"
| "upsert k v ((k', v') # kvs) = (if k' = k then (k, v) # kvs else (k', v') # upsert k v kvs)"

definition repo_save :: "job \<Rightarrow> job_repository \<Rightarrow> job_repository" where
  "repo_save j r = \<lparr>store = upsert (job_id j) j (store r), calls = calls r @ [Save j]\<rparr>"

definition repo_load :: "string \<Rightarrow> job_repository \<Rightarrow> (error + job) \<times> job_repository" where
  "repo_load i r =
     ((case map_of (store r) i of None \<Rightarrow> Inl (ModelNotFound i) | Some j \<Rightarrow> Inr j),
      r\<lparr>calls := calls r @ [Load i]\<rparr>)"

definition repo_load_all :: "job_repository \<Rightarrow> job list \<times> job_repository" where
  "repo_load_all r = (map snd (store r), r\<lparr>calls := calls r @ [LoadAll]\<rparr>)"

definition repo_delete :: "string \<Rightarrow> job_repository \<Rightarrow> job_repository" where
  "repo_delete i r =
     \<lparr>store = filter (\<lambda>kv. fst kv \<noteq> i) (store r), calls = calls r @ [Delete i]\<rparr>"

definition repo_delete_all :: "job_repository \<Rightarrow> job_repository" where
  "repo_delete_all r = \<lparr>store = [], calls = calls r @ [DeleteAll]\<rparr>"

section \<open>Identifiers\<close>

text \<open>
  \<^verbatim>\<open>uuid.uuid4()\<close> of the Python library draws 16 random bytes and builds a UUID of
  version 4 from them: the variant bits are set to binary 10 and the version nibble to 4.
  The random draw is an input of the model.
\<close>

definition uuid4 :: "128 word \<Rightarrow> 128 word" where
  "uuid4 r =
     (((r AND NOT (push_bit 48 0xc000)) OR push_bit 48 0x8000)
        AND NOT (push_bit 64 0xf000)) OR push_bit 76 4"

definition hex_digit :: "nat \<Rightarrow> char" where
  "hex_digit n = ''0123456789abcdef'' ! n"

definition nibble :: "128 word \<Rightarrow> nat \<Rightarrow> nat" where
  "nibble w k = unat (take_bit 4 (drop_bit (4 * k) w))"

text \<open>\<^verbatim>\<open>'%032x' % int\<close>: 32 lower-case hexadecimal digits, the most significant first.\<close>

definition hex32 :: "128 word \<Rightarrow> string" where
  "hex32 w = map (\<lambda>i. hex_digit (nibble w (31 - i))) [0..<32]"

text \<open>The canonical string form of a UUID: the digits in groups of 8, 4, 4, 4 and 12.\<close>

definition uuid_str :: "128 word \<Rightarrow> string" where
  "uuid_str w =
     (let h = hex32 w
      in take 8 h @ ''-'' @ take 4 (drop 8 h) @ ''-'' @ take 4 (drop 12 h) @ ''-''
         @ take 4 (drop 16 h) @ ''-'' @ drop 20 h)"

section \<open>The job manager\<close>

text \<open>
  The state the class methods act on: the class-level repository and the records handed to
  the \<^verbatim>\<open>logging\<close> module.
\<close>

record manager_state =
  repository :: job_repository
  logging :: "log_record list"

text \<open>\<^verbatim>\<open>JobManager.set\<close>\<close>

definition set_job :: "job \<Rightarrow> manager_state \<Rightarrow> manager_state" where
  "set_job j st = st\<lparr>repository := repo_save j (repository st)\<rparr>"

text \<open>
  \<^verbatim>\<open>JobManager.create\<close>. The random draw of \<^verbatim>\<open>uuid4\<close> and the creation time read by the
  constructor of the job are inputs.
\<close>

definition create ::
  "task \<Rightarrow> callback list \<Rightarrow> 128 word \<Rightarrow> nat \<Rightarrow> manager_state \<Rightarrow> job \<times> manager_state" where
  "create t callbacks rnd now st =
     (let j = Job (''JOB_'' @ uuid_str (uuid4 rnd)) t now;
          st' = set_job j st;
          j' = on_status_change j callbacks
      in (j', st'))"

text \<open>\<^verbatim>\<open>JobManager.get\<close>: only \<^verbatim>\<open>ModelNotFound\<close> is caught.\<close>

definition get :: "string \<Rightarrow> manager_state \<Rightarrow> (error + job) \<times> manager_state" where
  "get i st =
     (let (res, r') = repo_load i (repository st); st' = st\<lparr>repository := r'\<rparr>
      in case res of
           Inr j \<Rightarrow> (Inr j, st')
         | Inl (ModelNotFound _) \<Rightarrow>
             (Inl (NonExistingJob i),
              st'\<lparr>logging := logging st' @ [(ERROR, Text (''Job: '' @ i @ '' does not exist.''))]\<rparr>)
         | Inl e \<Rightarrow> (Inl e, st'))"

text \<open>\<^verbatim>\<open>JobManager.get_all\<close>\<close>

definition get_all :: "manager_state \<Rightarrow> job list \<times> manager_state" where
  "get_all st = (let (js, r') = repo_load_all (repository st) in (js, st\<lparr>repository := r'\<rparr>))"

text \<open>\<^verbatim>\<open>JobManager.delete\<close>\<close>

definition delete :: "job \<Rightarrow> bool \<Rightarrow> manager_state \<Rightarrow> (error + unit) \<times> manager_state" where
  "delete j force st =
     (if is_finished j \<or> force
      then (Inr (), st\<lparr>repository := repo_delete (job_id j) (repository st)\<rparr>)
      else (let err = JobNotDeletedException (job_id j)
            in (Inl err, st\<lparr>logging := logging st @ [(WARNING, Exc err)]\<rparr>)))"

text \<open>\<^verbatim>\<open>JobManager.delete_all\<close>\<close>

definition delete_all :: "manager_state \<Rightarrow> manager_state" where
  "delete_all st = st\<lparr>repository := repo_delete_all (repository st)\<rparr>"

text \<open>
  Python's \<^verbatim>\<open>max\<close> over an iterable: \<^verbatim>\<open>ValueError\<close> when it is empty; otherwise the
  running maximum is replaced by an item only when the item is greater, so the first of
  several maximal items is returned.
\<close>

fun max_loop :: "job \<Rightarrow> job list \<Rightarrow> job" where
  "max_loop m [] = m"
| "max_loop m (x # xs) = max_loop (if job_gt x m then x else m) xs"

definition py_max :: "job list \<Rightarrow> error + job" where
  "py_max xs = (case xs of [] \<Rightarrow> Inl ValueError | x # xs' \<Rightarrow> Inr (max_loop x xs'))"

text \<open>\<^verbatim>\<open>JobManager.get_latest_job\<close>\<close>

definition get_latest_job :: "task \<Rightarrow> manager_state \<Rightarrow> (error + job) \<times> manager_state" where
  "get_latest_job t st =
     (let (js, st') = get_all st
      in (py_max (filter (\<lambda>j. job_contains j t) js), st'))"

text \<open>
  A run of \<^verbatim>\<open>create\<close> calls, as a caller makes them one after the other: each request
  gives the task, the callbacks, the random draw and the creation time of one call. The
  jobs are returned in the order of the calls.
\<close>

fun create_seq ::
  "(task \<times> callback list \<times> 128 word \<times> nat) list \<Rightarrow> manager_state
     \<Rightarrow> job list \<times> manager_state" where
  "create_seq [] st = ([], st)"
| "create_seq ((t, callbacks, rnd, now) # reqs) st =
     (let (j, st') = create t callbacks rnd now st;
          (js, st'') = create_seq reqs st'
      in (j # js, st''))"

section \<open>Example states\<close>

definition empty_state :: manager_state where
  "empty_state = \<lparr>repository = \<lparr>store = [], calls = []\<rparr>, logging = []\<rparr>"

definition job_a :: job where
  "job_a = \<lparr>job_id = ''JOB_a'', task = Task ''t'', status = RUNNING,
             creation_timestamp = 1, subscribers = []\<rparr>"

definition job_b :: job where
  "job_b = \<lparr>job_id = ''JOB_b'', task = Task ''t'', status = COMPLETED,
             creation_timestamp = 2, subscribers = []\<rparr>"

definition job_a_done :: job where
  "job_a_done = job_a\<lparr>status := COMPLETED\<rparr>"

text \<open>Two jobs created one after the other for one task, from different draws.\<close>

definition first_created :: "job \<times> manager_state" where
  "first_created = create (Task ''t'') [] 7 1 empty_state"

definition second_created :: "job \<times> manager_state" where
  "second_created = create (Task ''t'') [] 8 2 (snd first_created)"

text \<open>Runs of two \<^verbatim>\<open>create\<close> calls: with the same draw, and with different draws.\<close>

definition same_draw_twice :: "(task \<times> callback list \<times> 128 word \<times> nat) list" where
  "same_draw_twice = [(Task ''t'', [], 7, 1), (Task ''u'', [], 7, 2)]"

definition two_draws :: "(task \<times> callback list \<times> 128 word \<times> nat) list" where
  "two_draws = [(Task ''t'', [], 7, 1), (Task ''t'', [], 8, 2)]"

section \<open>Basic facts about the repository and the manager\<close>

lemma map_of_upsert: "map_of (upsert k v kvs) = (map_of kvs)(k \<mapsto> v)"
  by (induction kvs) auto

lemma map_of_filter_neq: "map_of (filter (\<lambda>kv. fst kv \<noteq> k) kvs) = (map_of kvs)(k := None)"
  by (induction kvs) auto

lemma fst_repo_load:
  "fst (repo_load i r) =
     (case map_of (store r) i of None \<Rightarrow> Inl (ModelNotFound i) | Some j \<Rightarrow> Inr j)"
  by (simp add: repo_load_def)

lemma fst_get:
  "fst (get i st) =
     (case map_of (store (repository st)) i of
        None \<Rightarrow> Inl (NonExistingJob i)
      | Some j \<Rightarrow> Inr j)"
  by (simp add: get_def repo_load_def split: option.splits)

lemma logging_get:
  "logging (snd (get i st)) =
     (case map_of (store (repository st)) i of
        None \<Rightarrow> logging st @ [(ERROR, Text (''Job: '' @ i @ '' does not exist.''))]
      | Some j \<Rightarrow> logging st)"
  by (simp add: get_def repo_load_def split: option.splits)

lemma fst_get_all: "fst (get_all st) = map snd (store (repository st))"
  by (simp add: get_all_def repo_load_all_def)

lemma snd_get_all:
  "snd (get_all st) =
     st\<lparr>repository := (repository st)\<lparr>calls := calls (repository st) @ [LoadAll]\<rparr>\<rparr>"
  by (simp add: get_all_def repo_load_all_def)

lemma fst_get_latest_job:
  "fst (get_latest_job t st) = py_max (filter (\<lambda>j. job_contains j t) (fst (get_all st)))"
  by (simp add: get_latest_job_def split_beta)

lemma snd_get_latest_job: "snd (get_latest_job t st) = snd (get_all st)"
  by (simp add: get_latest_job_def split_beta)

lemma upsert_mem: "(k, v) \<in> set (upsert k v kvs)"
  by (induction kvs) auto

lemma upsert_keeps: "(k', v') \<in> set kvs \<Longrightarrow> k' \<noteq> k \<Longrightarrow> (k', v') \<in> set (upsert k v kvs)"
  by (induction kvs) auto

lemma upsert_subset: "set (upsert k v kvs) \<subseteq> insert (k, v) (set kvs)"
  by (induction kvs) (auto split: if_splits)

lemma store_set_job: "store (repository (set_job j st)) = upsert (job_id j) j (store (repository st))"
  by (simp add: set_job_def repo_save_def)

lemma store_delete:
  "is_finished j \<or> force \<Longrightarrow>
   store (repository (snd (delete j force st)))
     = filter (\<lambda>kv. fst kv \<noteq> job_id j) (store (repository st))"
  by (auto simp: delete_def repo_delete_def)

section \<open>Facts about identifiers\<close>

lemma hex_digit_inj:
  assumes "a < 16" "b < 16" "hex_digit a = hex_digit b"
  shows "a = b"
proof -
  have d: "distinct ''0123456789abcdef''" by simp
  have l: "length ''0123456789abcdef'' = 16" by simp
  from assms show ?thesis
    unfolding hex_digit_def using nth_eq_iff_index_eq [OF d, of a b] l by simp
qed

lemma nibble_less: "nibble w k < 16"
proof -
  have "nibble w k = take_bit 4 (unat (drop_bit (4 * k) w))"
    by (simp add: nibble_def unsigned_take_bit_eq)
  also have "\<dots> < 2 ^ 4" by (rule take_bit_nat_less_exp)
  finally show ?thesis by simp
qed

lemma bit_nibble:
  "bit (take_bit 4 (drop_bit (4 * k) w) :: 128 word) m \<longleftrightarrow> m < 4 \<and> bit w (4 * k + m)"
  by (simp add: bit_take_bit_iff bit_drop_bit_eq)


lemma nibbles_determine:
  assumes "\<forall>k < 32. nibble a k = nibble b k"
  shows "a = b"
proof (rule bit_word_eqI)
  fix n
  assume n: "n < LENGTH(128)"
  then have k: "n div 4 < 32" by simp
  with assms have "nibble a (n div 4) = nibble b (n div 4)" by blast
  then have eq: "(take_bit 4 (drop_bit (4 * (n div 4)) a) :: 128 word)
             = take_bit 4 (drop_bit (4 * (n div 4)) b)"
    unfolding nibble_def by (rule unsigned_word_eqI)
  have m: "n mod 4 < 4" by simp
  have "bit a n \<longleftrightarrow> bit (take_bit 4 (drop_bit (4 * (n div 4)) a) :: 128 word) (n mod 4)"
    by (simp only: bit_nibble m mult_div_mod_eq simp_thms)
  also have "\<dots> \<longleftrightarrow> bit (take_bit 4 (drop_bit (4 * (n div 4)) b) :: 128 word) (n mod 4)"
    by (simp only: eq)
  also have "\<dots> \<longleftrightarrow> bit b n"
    by (simp only: bit_nibble m mult_div_mod_eq simp_thms)
  finally show "bit a n \<longleftrightarrow> bit b n" .
qed

lemma length_hex32: "length (hex32 w) = 32"
  by (simp add: hex32_def)


lemma hex32_nth: "i < 32 \<Longrightarrow> hex32 w ! i = hex_digit (nibble w (31 - i))"
  unfolding hex32_def by (simp only: nth_map_upt minus_nat.diff_0 add_0)

lemma hex32_inj:
  assumes "hex32 a = hex32 b"
  shows "a = b"
proof (rule nibbles_determine, intro allI impI)
  fix k :: nat
  assume k: "k < 32"
  then have i: "31 - k < 32" by simp
  from assms have "hex32 a ! (31 - k) = hex32 b ! (31 - k)" by simp
  with i have "hex_digit (nibble a (31 - (31 - k))) = hex_digit (nibble b (31 - (31 - k)))"
    by (simp only: hex32_nth)
  moreover from k have "31 - (31 - k) = k" by simp
  ultimately have "hex_digit (nibble a k) = hex_digit (nibble b k)" by simp
  then show "nibble a k = nibble b k"
    by (rule hex_digit_inj [OF nibble_less nibble_less])
qed


lemma hex_digit_not_dash: "n < 16 \<Longrightarrow> hex_digit n \<noteq> CHR ''-''"
proof -
  assume "n < 16"
  then have "hex_digit n \<in> set ''0123456789abcdef''"
    unfolding hex_digit_def by (intro nth_mem) simp
  moreover have "CHR ''-'' \<notin> set ''0123456789abcdef''" by simp
  ultimately show ?thesis by metis
qed

lemma hex32_no_dash: "c \<in> set (hex32 w) \<Longrightarrow> c \<noteq> CHR ''-''"
  unfolding hex32_def using hex_digit_not_dash [OF nibble_less] by (auto simp del: upt_Suc)

lemma filter_take_id: "(\<And>x. x \<in> set h \<Longrightarrow> P x) \<Longrightarrow> filter P (take n h) = take n h"
  by (metis filter_True in_set_takeD)

lemma filter_drop_id: "(\<And>x. x \<in> set h \<Longrightarrow> P x) \<Longrightarrow> filter P (drop n h) = drop n h"
  by (metis filter_True in_set_dropD)

lemma filter_take_drop_id:
  "(\<And>x. x \<in> set h \<Longrightarrow> P x) \<Longrightarrow> filter P (take n (drop m h)) = take n (drop m h)"
  by (metis filter_True in_set_dropD in_set_takeD)

lemma groups_rejoin:
  "take 8 h @ take 4 (drop 8 h) @ take 4 (drop 12 h) @ take 4 (drop 16 h) @ drop 20 h = h"
proof -
  have a: "take 8 h @ take 4 (drop 8 h) = take 12 h"
    using take_add [of 8 4 h] by simp
  have b: "take 12 h @ take 4 (drop 12 h) = take 16 h"
    using take_add [of 12 4 h] by simp
  have c: "take 16 h @ take 4 (drop 16 h) = take 20 h"
    using take_add [of 16 4 h] by simp
  have "take 8 h @ take 4 (drop 8 h) @ take 4 (drop 12 h) @ take 4 (drop 16 h) @ drop 20 h
      = ((((take 8 h @ take 4 (drop 8 h)) @ take 4 (drop 12 h)) @ take 4 (drop 16 h)) @ drop 20 h)"
    by (simp only: append_assoc)
  also have "\<dots> = h"
    by (simp only: a b c append_take_drop_id)
  finally show ?thesis .
qed

lemma undash_uuid_str: "filter (\<lambda>c. c \<noteq> CHR ''-'') (uuid_str w) = hex32 w"
proof -
  let ?P = "\<lambda>c. c \<noteq> CHR ''-''"
  define h where "h = hex32 w"
  have P: "\<And>x. x \<in> set h \<Longrightarrow> ?P x"
    unfolding h_def by (rule hex32_no_dash)
  have "filter ?P (uuid_str w)
      = take 8 h @ take 4 (drop 8 h) @ take 4 (drop 12 h) @ take 4 (drop 16 h) @ drop 20 h"
    unfolding uuid_str_def Let_def h_def [symmetric]
    by (simp only: filter_append filter_take_id [of h ?P, OF P] filter_drop_id [of h ?P, OF P]
        filter_take_drop_id [of h ?P, OF P]) simp
  then show ?thesis by (simp only: groups_rejoin h_def)
qed

lemma uuid_str_inj: "uuid_str a = uuid_str b \<Longrightarrow> a = b"
  by (rule hex32_inj) (metis undash_uuid_str)

lemma length_uuid_str: "length (uuid_str w) = 36"
  by (simp add: uuid_str_def Let_def length_hex32)

section \<open>Creating\<close>

lemma fst_create:
  "fst (create t cbs rnd now st)
     = on_status_change (Job (''JOB_'' @ uuid_str (uuid4 rnd)) t now) cbs"
  by (simp add: create_def Let_def)

lemma snd_create:
  "snd (create t cbs rnd now st) = set_job (Job (''JOB_'' @ uuid_str (uuid4 rnd)) t now) st"
  by (simp add: create_def Let_def)

lemma job_id_create: "job_id (fst (create t cbs rnd now st)) = ''JOB_'' @ uuid_str (uuid4 rnd)"
  by (simp add: fst_create on_status_change_def Job_def)

lemma on_status_change_Nil: "on_status_change j [] = j"
  by (simp add: on_status_change_def)

lemma uuid4_7_8: "uuid4 7 \<noteq> uuid4 8"
  by (simp add: uuid4_def)

lemma job_ids_create_seq:
  "map job_id (fst (create_seq reqs st))
     = map (\<lambda>(t, cbs, rnd, now). ''JOB_'' @ uuid_str (uuid4 rnd)) reqs"
proof (induction reqs arbitrary: st)
  case Nil
  show ?case by simp
next
  case (Cons req reqs)
  obtain t cbs rnd now where req: "req = (t, cbs, rnd, now)" by (cases req) auto
  show ?case
    by (simp add: req split_beta Let_def job_id_create Cons.IH)
qed

lemma job_id_of_uuid_inj: "inj (\<lambda>w. ''JOB_'' @ uuid_str w)"
proof (rule injI)
  fix a b :: "128 word"
  assume "''JOB_'' @ uuid_str a = ''JOB_'' @ uuid_str b"
  then have "uuid_str a = uuid_str b" by (simp only: same_append_eq)
  then show "a = b" by (rule uuid_str_inj)
qed

lemma uuid4_7: "uuid4 7 = 0x40008000000000000007"
  by (simp add: uuid4_def)

lemma uuid_str_7: "uuid_str 0x40008000000000000007 = ''00000000-0000-4000-8000-000000000007''"
  by code_simp

lemma uuid_str_uuid4_7: "uuid_str (uuid4 7) = ''00000000-0000-4000-8000-000000000007''"
  by (simp only: uuid4_7 uuid_str_7)

text \<open>
  C7: \<^verbatim>\<open>create\<close> returns a job for the given task whose identity is \<^verbatim>\<open>JOB_\<close>
  followed by the canonical string form, of 36 characters, of the version-4 UUID built from
  the draw of this call. The repository receives exactly one call, a save of the job as it
  is before any callback is registered, and nothing is logged; the job returned has every
  element of \<^verbatim>\<open>callbacks\<close> as a subscriber, in order, and is otherwise the job that was
  saved.
\<close>

theorem create_persists_then_registers:
  "job_id (fst (create t cbs rnd now st)) = ''JOB_'' @ uuid_str (uuid4 rnd)
   \<and> length (uuid_str (uuid4 rnd)) = 36
   \<and> task (fst (create t cbs rnd now st)) = t
   \<and> subscribers (fst (create t cbs rnd now st)) = cbs
   \<and> calls (repository (snd (create t cbs rnd now st)))
       = calls (repository st) @ [Save ((fst (create t cbs rnd now st))\<lparr>subscribers := []\<rparr>)]
   \<and> store (repository (snd (create t cbs rnd now st)))
       = upsert (job_id (fst (create t cbs rnd now st)))
           ((fst (create t cbs rnd now st))\<lparr>subscribers := []\<rparr>) (store (repository st))
   \<and> fst (get (job_id (fst (create t cbs rnd now st))) (snd (create t cbs rnd now st)))
       = Inr ((fst (create t cbs rnd now st))\<lparr>subscribers := []\<rparr>)
   \<and> logging (snd (create t cbs rnd now st)) = logging st"
  by (simp add: fst_create snd_create length_uuid_str on_status_change_def Job_def
      set_job_def repo_save_def fst_get map_of_upsert)

text \<open>
  C4 (as stated): no two jobs that a run of \<^verbatim>\<open>create\<close> calls returns share an
  identity. This fails when two calls draw the same random bytes: the two jobs of the run
  below, created for different tasks, carry the same identity.
\<close>

theorem create_not_unique_counterexample:
  "map job_id (fst (create_seq same_draw_twice empty_state))
     = [''JOB_00000000-0000-4000-8000-000000000007'',
        ''JOB_00000000-0000-4000-8000-000000000007'']
   \<and> \<not> distinct (map job_id (fst (create_seq same_draw_twice empty_state)))"
  unfolding job_ids_create_seq same_draw_twice_def by (simp add: uuid_str_uuid4_7)

text \<open>
  C4 (amended): the jobs that a run of \<^verbatim>\<open>create\<close> calls returns have pairwise different
  identities if and only if the UUIDs generated in the calls are pairwise different. The
  identity is an injective function of the UUID, and \<^verbatim>\<open>create\<close> checks for no collision.
\<close>

theorem create_seq_ids_distinct_iff:
  "distinct (map job_id (fst (create_seq reqs st)))
     \<longleftrightarrow> distinct (map (\<lambda>(t, cbs, rnd, now). uuid4 rnd) reqs)"
proof -
  let ?f = "\<lambda>w. ''JOB_'' @ uuid_str w"
  let ?g = "\<lambda>(t :: task, cbs :: callback list, rnd, now :: nat). uuid4 rnd"
  have "map job_id (fst (create_seq reqs st)) = map ?f (map ?g reqs)"
    unfolding job_ids_create_seq by (simp add: split_beta)
  then have "distinct (map job_id (fst (create_seq reqs st)))
      \<longleftrightarrow> distinct (map ?f (map ?g reqs))"
    by (simp only:)
  also have "\<dots> \<longleftrightarrow> distinct (map ?g reqs)"
  proof -
    have "inj_on ?f (set (map ?g reqs))"
      by (rule inj_on_subset [OF job_id_of_uuid_inj subset_UNIV])
    then show ?thesis by (simp only: distinct_map simp_thms)
  qed
  finally show ?thesis .
qed

theorem create_seq_ids_distinct_iff_witness:
  "distinct (map job_id (fst (create_seq two_draws empty_state)))"
proof -
  have "distinct (map (\<lambda>(t, cbs, rnd, now). uuid4 rnd) two_draws)"
    unfolding two_draws_def using uuid4_7_8 by simp
  then show ?thesis by (simp only: create_seq_ids_distinct_iff)
qed

section \<open>Persisting and loading\<close>

text \<open>
  C5: a job that has been saved with \<^verbatim>\<open>set\<close> is what \<^verbatim>\<open>get\<close> returns for its
  identity, equal in every field, whatever the repository held before.
\<close>

theorem set_get_roundtrip:
  "fst (get (job_id j) (set_job j st)) = Inr j"
  by (simp add: fst_get set_job_def repo_save_def map_of_upsert)

text \<open>
  C6: \<^verbatim>\<open>get\<close> fails with \<^verbatim>\<open>NonExistingJob\<close> exactly when the load of the repository
  fails with \<^verbatim>\<open>ModelNotFound\<close>; the state it fails in holds one more log record, of
  severity ERROR. When the repository loads a job, \<^verbatim>\<open>get\<close> returns that job and logs
  nothing.
\<close>

theorem get_nonexisting:
  "((\<exists>k. fst (repo_load i (repository st)) = Inl (ModelNotFound k))
      \<longleftrightarrow> fst (get i st) = Inl (NonExistingJob i))
   \<and> (fst (get i st) = Inl (NonExistingJob i) \<longrightarrow>
        logging (snd (get i st))
          = logging st @ [(ERROR, Text (''Job: '' @ i @ '' does not exist.''))])
   \<and> (\<forall>j. fst (repo_load i (repository st)) = Inr j \<longrightarrow>
        fst (get i st) = Inr j \<and> logging (snd (get i st)) = logging st)"
  by (auto simp: fst_get logging_get fst_repo_load split: option.splits)

theorem get_nonexisting_witness:
  "fst (repo_load ''JOB_nonexistent'' (repository empty_state))
     = Inl (ModelNotFound ''JOB_nonexistent'')
   \<and> fst (get ''JOB_nonexistent'' empty_state) = Inl (NonExistingJob ''JOB_nonexistent'')
   \<and> logging (snd (get ''JOB_nonexistent'' empty_state))
       = [(ERROR, Text ''Job: JOB_nonexistent does not exist.'')]
   \<and> fst (repo_load ''JOB_a'' (repository (set_job job_a empty_state))) = Inr job_a
   \<and> fst (get ''JOB_a'' (set_job job_a empty_state)) = Inr job_a
   \<and> logging (snd (get ''JOB_a'' (set_job job_a empty_state))) = []"
proof -
  note absent = get_nonexisting [of "''JOB_nonexistent''" empty_state]
  note present = get_nonexisting [of "''JOB_a''" "set_job job_a empty_state"]
  have l1: "fst (repo_load ''JOB_nonexistent'' (repository empty_state))
              = Inl (ModelNotFound ''JOB_nonexistent'')"
    by (simp add: fst_repo_load empty_state_def)
  with absent have g1: "fst (get ''JOB_nonexistent'' empty_state)
                          = Inl (NonExistingJob ''JOB_nonexistent'')"
    by blast
  with absent have "logging (snd (get ''JOB_nonexistent'' empty_state))
      = logging empty_state
        @ [(ERROR, Text (''Job: '' @ ''JOB_nonexistent'' @ '' does not exist.''))]"
    by blast
  then have g2: "logging (snd (get ''JOB_nonexistent'' empty_state))
      = [(ERROR, Text ''Job: JOB_nonexistent does not exist.'')]"
    by (simp add: empty_state_def)
  have l2: "fst (repo_load ''JOB_a'' (repository (set_job job_a empty_state))) = Inr job_a"
    by (simp add: fst_repo_load set_job_def repo_save_def empty_state_def job_a_def)
  with present have g3: "fst (get ''JOB_a'' (set_job job_a empty_state)) = Inr job_a"
    and "logging (snd (get ''JOB_a'' (set_job job_a empty_state)))
           = logging (set_job job_a empty_state)"
    by blast+
  then have g4: "logging (snd (get ''JOB_a'' (set_job job_a empty_state))) = []"
    by (simp add: set_job_def empty_state_def)
  from l1 g1 g2 l2 g3 g4 show ?thesis by blast
qed

section \<open>Deleting\<close>

text \<open>
  C1: \<^verbatim>\<open>delete\<close> with \<^verbatim>\<open>force\<close> or on a finished job succeeds, logs nothing, and
  leaves no record under the identity of the job. On a job that is not finished, without
  \<^verbatim>\<open>force\<close>, it fails with \<^verbatim>\<open>JobNotDeletedException\<close>, the state it fails in holds one
  more log record, of severity WARNING, the repository is as before, and \<^verbatim>\<open>get\<close> answers
  as before. So for a persisted job, \<^verbatim>\<open>delete\<close> without \<^verbatim>\<open>force\<close> removes the record if
  and only if the job is finished.
\<close>

theorem delete_gating:
  "(is_finished j \<or> force \<longrightarrow>
      fst (delete j force st) = Inr ()
      \<and> fst (get (job_id j) (snd (delete j force st))) = Inl (NonExistingJob (job_id j))
      \<and> logging (snd (delete j force st)) = logging st)
   \<and> (\<not> is_finished j \<and> \<not> force \<longrightarrow>
      fst (delete j force st) = Inl (JobNotDeletedException (job_id j))
      \<and> repository (snd (delete j force st)) = repository st
      \<and> logging (snd (delete j force st))
          = logging st @ [(WARNING, Exc (JobNotDeletedException (job_id j)))]
      \<and> fst (get (job_id j) (snd (delete j force st))) = fst (get (job_id j) st))
   \<and> (\<forall>p. fst (get (job_id j) st) = Inr p \<longrightarrow>
        (fst (get (job_id j) (snd (delete j False st))) = Inl (NonExistingJob (job_id j)))
          = is_finished j)"
  by (auto simp: delete_def fst_get repo_delete_def map_of_filter_neq Let_def
      split: option.splits)

theorem delete_gating_witness:
  "fst (get (job_id job_a) (set_job job_a empty_state)) = Inr job_a
   \<and> \<not> is_finished job_a
   \<and> fst (delete job_a False (set_job job_a empty_state))
       = Inl (JobNotDeletedException ''JOB_a'')
   \<and> logging (snd (delete job_a False (set_job job_a empty_state)))
       = [(WARNING, Exc (JobNotDeletedException ''JOB_a''))]
   \<and> fst (get ''JOB_a'' (snd (delete job_a False (set_job job_a empty_state)))) = Inr job_a
   \<and> fst (delete job_a True (set_job job_a empty_state)) = Inr ()
   \<and> fst (get ''JOB_a'' (snd (delete job_a True (set_job job_a empty_state))))
       = Inl (NonExistingJob ''JOB_a'')
   \<and> is_finished job_b
   \<and> fst (get (job_id job_b) (set_job job_b empty_state)) = Inr job_b
   \<and> fst (delete job_b False (set_job job_b empty_state)) = Inr ()
   \<and> fst (get ''JOB_b'' (snd (delete job_b False (set_job job_b empty_state))))
       = Inl (NonExistingJob ''JOB_b'')"
proof -
  note unfinished = delete_gating [of job_a False "set_job job_a empty_state"]
  note forced = delete_gating [of job_a True "set_job job_a empty_state"]
  note finished = delete_gating [of job_b False "set_job job_b empty_state"]
  have ida: "job_id job_a = ''JOB_a''" and idb: "job_id job_b = ''JOB_b''"
    by (simp_all add: job_a_def job_b_def)
  have a: "\<not> is_finished job_a" and b: "is_finished job_b"
    by (simp_all add: is_finished_def job_a_def job_b_def)
  have ga: "fst (get (job_id job_a) (set_job job_a empty_state)) = Inr job_a"
    and gb: "fst (get (job_id job_b) (set_job job_b empty_state)) = Inr job_b"
    by (simp_all add: fst_get set_job_def repo_save_def empty_state_def)
  from unfinished a have
    u1: "fst (delete job_a False (set_job job_a empty_state))
           = Inl (JobNotDeletedException (job_id job_a))"
    and u2: "logging (snd (delete job_a False (set_job job_a empty_state)))
           = logging (set_job job_a empty_state)
             @ [(WARNING, Exc (JobNotDeletedException (job_id job_a)))]"
    and u3: "fst (get (job_id job_a) (snd (delete job_a False (set_job job_a empty_state))))
           = fst (get (job_id job_a) (set_job job_a empty_state))"
    by blast+
  from u2 have u2': "logging (snd (delete job_a False (set_job job_a empty_state)))
       = [(WARNING, Exc (JobNotDeletedException ''JOB_a''))]"
    by (simp add: ida set_job_def empty_state_def)
  from forced have
    f1: "fst (delete job_a True (set_job job_a empty_state)) = Inr ()"
    and f2: "fst (get (job_id job_a) (snd (delete job_a True (set_job job_a empty_state))))
           = Inl (NonExistingJob (job_id job_a))"
    by blast+
  from finished b have
    d1: "fst (delete job_b False (set_job job_b empty_state)) = Inr ()"
    and d2: "fst (get (job_id job_b) (snd (delete job_b False (set_job job_b empty_state))))
           = Inl (NonExistingJob (job_id job_b))"
    by blast+
  from a b ga gb u1 u2' u3 f1 f2 d1 d2 show ?thesis
    by (simp add: ida idb)
qed

text \<open>
  C10: the outcome of \<^verbatim>\<open>delete\<close> without \<^verbatim>\<open>force\<close> is the same in every state of the
  repository: it follows from the status of the job passed as argument alone. When that job
  is finished and the record persisted under its identity is not, the record is removed; when
  that job is not finished and the persisted record is, \<^verbatim>\<open>JobNotDeletedException\<close> is
  raised and the record stays. The repository is never asked to load: the only call it may
  receive is the removal.
\<close>

theorem delete_in_memory_only:
  "fst (delete j False st) = fst (delete j False st')
   \<and> (job_id p = job_id j \<and> is_finished j \<and> \<not> is_finished p \<longrightarrow>
        fst (get (job_id j) (set_job p st)) = Inr p
        \<and> fst (delete j False (set_job p st)) = Inr ()
        \<and> fst (get (job_id j) (snd (delete j False (set_job p st))))
            = Inl (NonExistingJob (job_id j)))
   \<and> (job_id p = job_id j \<and> \<not> is_finished j \<and> is_finished p \<longrightarrow>
        fst (delete j False (set_job p st)) = Inl (JobNotDeletedException (job_id j))
        \<and> fst (get (job_id j) (snd (delete j False (set_job p st)))) = Inr p)
   \<and> calls (repository (snd (delete j False st)))
       = calls (repository st) @ (if is_finished j then [Delete (job_id j)] else [])"
  by (auto simp: delete_def fst_get repo_delete_def map_of_filter_neq Let_def
      set_job_def repo_save_def map_of_upsert)

theorem delete_in_memory_only_witness:
  "job_id job_a = job_id job_a_done \<and> is_finished job_a_done \<and> \<not> is_finished job_a
   \<and> fst (get ''JOB_a'' (set_job job_a empty_state)) = Inr job_a
   \<and> fst (delete job_a_done False (set_job job_a empty_state)) = Inr ()
   \<and> fst (get ''JOB_a'' (snd (delete job_a_done False (set_job job_a empty_state))))
       = Inl (NonExistingJob ''JOB_a'')
   \<and> fst (delete job_a False (set_job job_a_done empty_state))
       = Inl (JobNotDeletedException ''JOB_a'')
   \<and> fst (get ''JOB_a'' (snd (delete job_a False (set_job job_a_done empty_state))))
       = Inr job_a_done"
proof -
  note stale = delete_in_memory_only [of job_a_done empty_state empty_state job_a]
  note fresh = delete_in_memory_only [of job_a empty_state empty_state job_a_done]
  have ids: "job_id job_a = ''JOB_a''" "job_id job_a_done = ''JOB_a''"
    by (simp_all add: job_a_def job_a_done_def)
  have fin: "is_finished job_a_done" "\<not> is_finished job_a"
    by (simp_all add: is_finished_def job_a_def job_a_done_def)
  from stale ids fin have
    s0: "fst (get (job_id job_a_done) (set_job job_a empty_state)) = Inr job_a"
    and s1: "fst (delete job_a_done False (set_job job_a empty_state)) = Inr ()"
    and s2: "fst (get (job_id job_a_done)
                  (snd (delete job_a_done False (set_job job_a empty_state))))
               = Inl (NonExistingJob (job_id job_a_done))"
    by simp_all
  from fresh ids fin have
    f1: "fst (delete job_a False (set_job job_a_done empty_state))
           = Inl (JobNotDeletedException (job_id job_a))"
    and f2: "fst (get (job_id job_a) (snd (delete job_a False (set_job job_a_done empty_state))))
           = Inr job_a_done"
    by simp_all
  from ids fin s0 s1 s2 f1 f2 show ?thesis by simp
qed

text \<open>
  C8: \<^verbatim>\<open>delete_all\<close> empties the repository in every state, whatever the status of the
  persisted jobs: afterwards \<^verbatim>\<open>get_all\<close> returns the empty list. The repository receives
  one call, the bulk removal, and no job is loaded or inspected; nothing is logged.
\<close>

theorem delete_all_unconditional:
  "store (repository (delete_all st)) = []
   \<and> fst (get_all (delete_all st)) = []
   \<and> calls (repository (delete_all st)) = calls (repository st) @ [DeleteAll]
   \<and> logging (delete_all st) = logging st"
  by (simp add: delete_all_def repo_delete_all_def fst_get_all)

section \<open>The latest job of a task\<close>

lemma max_loop_mem: "max_loop m xs \<in> insert m (set xs)"
  by (induction xs arbitrary: m) auto

lemma max_loop_ge_init: "creation_timestamp m \<le> creation_timestamp (max_loop m xs)"
proof (induction xs arbitrary: m)
  case Nil
  show ?case by simp
next
  case (Cons x xs)
  have "creation_timestamp m \<le> creation_timestamp (if job_gt x m then x else m)"
    by (simp add: job_gt_def)
  also have "\<dots> \<le> creation_timestamp (max_loop (if job_gt x m then x else m) xs)"
    by (rule Cons.IH)
  finally show ?case by simp
qed

lemma max_loop_ge_elem:
  "x \<in> set xs \<Longrightarrow> creation_timestamp x \<le> creation_timestamp (max_loop m xs)"
proof (induction xs arbitrary: m)
  case Nil
  then show ?case by simp
next
  case (Cons y ys)
  show ?case
  proof (cases "x = y")
    case True
    have "creation_timestamp y \<le> creation_timestamp (if job_gt y m then y else m)"
      by (simp add: job_gt_def)
    also have "\<dots> \<le> creation_timestamp (max_loop (if job_gt y m then y else m) ys)"
      by (rule max_loop_ge_init)
    finally show ?thesis using True by simp
  next
    case False
    with Cons.prems have "x \<in> set ys" by simp
    then show ?thesis using Cons.IH by simp
  qed
qed

lemma py_max_greatest:
  assumes "xs \<noteq> []"
  shows "\<exists>r. py_max xs = Inr r \<and> r \<in> set xs \<and> (\<forall>x \<in> set xs. \<not> job_gt x r)"
proof -
  from assms obtain y ys where xs: "xs = y # ys" by (cases xs) auto
  let ?r = "max_loop y ys"
  have "py_max xs = Inr ?r" by (simp add: xs py_max_def)
  moreover have "?r \<in> set xs" using max_loop_mem [of y ys] by (simp add: xs)
  moreover have "\<forall>x \<in> set xs. \<not> job_gt x ?r"
    using max_loop_ge_init [of y ys] max_loop_ge_elem [of _ ys y]
    by (auto simp: xs job_gt_def not_less)
  ultimately show ?thesis by blast
qed

lemma py_max_unique:
  assumes m: "m \<in> set xs"
    and less: "\<forall>x \<in> set xs. x \<noteq> m \<longrightarrow> creation_timestamp x < creation_timestamp m"
  shows "py_max xs = Inr m"
proof -
  from m have "xs \<noteq> []" by auto
  from py_max_greatest [OF this] obtain r where
    r: "py_max xs = Inr r" "r \<in> set xs" "\<forall>x \<in> set xs. \<not> job_gt x r"
    by blast
  from r(3) m have "creation_timestamp m \<le> creation_timestamp r"
    by (auto simp: job_gt_def not_less)
  with less r(2) have "r = m" by (meson not_le)
  with r(1) show ?thesis by simp
qed

text \<open>
  C9: when no persisted job belongs to the task, \<^verbatim>\<open>get_latest_job\<close> fails with the
  \<^verbatim>\<open>ValueError\<close> that \<^verbatim>\<open>max\<close> raises on an empty iterable: the manager neither
  translates it into one of its own exceptions nor logs it.
\<close>

theorem get_latest_job_empty:
  "(\<forall>j \<in> set (fst (get_all st)). \<not> job_contains j t) \<Longrightarrow>
     fst (get_latest_job t st) = Inl ValueError
     \<and> logging (snd (get_latest_job t st)) = logging st"
  by (simp add: fst_get_latest_job snd_get_latest_job snd_get_all py_max_def
      filter_empty_conv[THEN iffD2])

theorem get_latest_job_empty_witness:
  "fst (get_all (set_job job_a empty_state)) = [job_a]
   \<and> \<not> job_contains job_a (Task ''u'')
   \<and> fst (get_latest_job (Task ''u'') (set_job job_a empty_state)) = Inl ValueError
   \<and> logging (snd (get_latest_job (Task ''u'') (set_job job_a empty_state))) = []"
proof -
  have all: "fst (get_all (set_job job_a empty_state)) = [job_a]"
    by (simp add: fst_get_all set_job_def repo_save_def empty_state_def)
  have a: "\<not> job_contains job_a (Task ''u'')"
    by (simp add: job_a_def job_contains_def)
  have none: "\<forall>j \<in> set (fst (get_all (set_job job_a empty_state))).
                \<not> job_contains j (Task ''u'')"
    unfolding all using a by simp
  from get_latest_job_empty [OF none] have
    "fst (get_latest_job (Task ''u'') (set_job job_a empty_state)) = Inl ValueError"
    and "logging (snd (get_latest_job (Task ''u'') (set_job job_a empty_state)))
           = logging (set_job job_a empty_state)"
    by blast+
  with all a show ?thesis by (simp add: set_job_def empty_state_def)
qed

text \<open>
  C2: when some persisted job belongs to the task, \<^verbatim>\<open>get_latest_job\<close> returns a
  persisted job that belongs to the task and that no persisted job of the task is greater
  than, under the job ordering.
\<close>

theorem get_latest_job_greatest:
  assumes "\<exists>j \<in> set (fst (get_all st)). job_contains j t"
  shows "\<exists>r. fst (get_latest_job t st) = Inr r
           \<and> r \<in> set (fst (get_all st)) \<and> job_contains r t
           \<and> (\<forall>j \<in> set (fst (get_all st)). job_contains j t \<longrightarrow> \<not> job_gt j r)"
proof -
  let ?xs = "filter (\<lambda>j. job_contains j t) (fst (get_all st))"
  from assms have "?xs \<noteq> []" by (simp add: filter_empty_conv)
  from py_max_greatest [OF this] obtain r where
    r: "py_max ?xs = Inr r" "r \<in> set ?xs" "\<forall>x \<in> set ?xs. \<not> job_gt x r"
    by blast
  then show ?thesis by (auto simp: fst_get_latest_job)
qed

theorem get_latest_job_greatest_witness:
  "fst (get_all (set_job job_b (set_job job_a empty_state))) = [job_a, job_b]
   \<and> job_contains job_a (Task ''t'')
   \<and> fst (get_latest_job (Task ''t'') (set_job job_b (set_job job_a empty_state))) = Inr job_b"
proof -
  let ?st = "set_job job_b (set_job job_a empty_state)"
  have all: "fst (get_all ?st) = [job_a, job_b]"
    by (simp add: fst_get_all set_job_def repo_save_def empty_state_def job_a_def job_b_def)
  have a: "job_contains job_a (Task ''t'')"
    by (simp add: job_contains_def job_a_def)
  have ex: "\<exists>j \<in> set (fst (get_all ?st)). job_contains j (Task ''t'')"
    unfolding all using a by simp
  from get_latest_job_greatest [OF ex] obtain r where
    r: "fst (get_latest_job (Task ''t'') ?st) = Inr r"
      "r \<in> set (fst (get_all ?st))"
      "\<forall>j \<in> set (fst (get_all ?st)). job_contains j (Task ''t'') \<longrightarrow> \<not> job_gt j r"
    by blast
  from r(3) have "job_contains job_b (Task ''t'') \<longrightarrow> \<not> job_gt job_b r"
    unfolding all by simp
  then have "\<not> job_gt job_b r"
    by (simp add: job_contains_def job_b_def)
  then have "r \<noteq> job_a" by (auto simp: job_gt_def job_a_def job_b_def)
  with r(2) have "r = job_b" by (simp add: all)
  with r(1) all a show ?thesis by simp
qed

text \<open>
  C3: take two jobs of one task with different identities, the first created before the
  second, and a repository in which every job of the task is older than the first. Once
  both are persisted, \<^verbatim>\<open>get_latest_job\<close> returns the second; once the second has been
  deleted (it is finished, or the deletion is forced), \<^verbatim>\<open>get_latest_job\<close> returns the
  first.
\<close>

theorem latest_job_ordering:
  assumes t1: "job_contains j1 t" and t2: "job_contains j2 t"
    and before: "creation_timestamp j1 < creation_timestamp j2"
    and ids: "job_id j1 \<noteq> job_id j2"
    and older: "\<forall>j \<in> set (fst (get_all st)).
                  job_contains j t \<longrightarrow> creation_timestamp j < creation_timestamp j1"
    and deletable: "is_finished j2 \<or> force"
  shows "fst (get_latest_job t (set_job j2 (set_job j1 st))) = Inr j2
       \<and> fst (delete j2 force (set_job j2 (set_job j1 st))) = Inr ()
       \<and> fst (get_latest_job t (snd (delete j2 force (set_job j2 (set_job j1 st))))) = Inr j1"
proof -
  let ?s0 = "store (repository st)"
  let ?s2 = "upsert (job_id j2) j2 (upsert (job_id j1) j1 ?s0)"
  let ?s3 = "filter (\<lambda>kv. fst kv \<noteq> job_id j2) ?s2"
  let ?P = "\<lambda>j. job_contains j t"
  have sub2: "set ?s2 \<subseteq> insert (job_id j2, j2) (insert (job_id j1, j1) (set ?s0))"
    using upsert_subset [of "job_id j2" j2 "upsert (job_id j1) j1 ?s0"]
      upsert_subset [of "job_id j1" j1 ?s0]
    by blast
  have old: "\<And>k j. (k, j) \<in> set ?s0 \<Longrightarrow> ?P j \<Longrightarrow> creation_timestamp j < creation_timestamp j1"
    using older by (force simp: fst_get_all)
  \<comment> \<open>both persisted: the latest is the second\<close>
  have in2: "j2 \<in> set (filter ?P (map snd ?s2))"
    using upsert_mem [of "job_id j2" j2 "upsert (job_id j1) j1 ?s0"] t2 by force
  have less2: "\<forall>x \<in> set (filter ?P (map snd ?s2)).
      x \<noteq> j2 \<longrightarrow> creation_timestamp x < creation_timestamp j2"
  proof (intro ballI impI)
    fix x
    assume x: "x \<in> set (filter ?P (map snd ?s2))" and ne: "x \<noteq> j2"
    then obtain k where "(k, x) \<in> set ?s2" and Px: "?P x" by auto
    with sub2 ne have "x = j1 \<or> (k, x) \<in> set ?s0" by auto
    then show "creation_timestamp x < creation_timestamp j2"
      using old Px before by (auto intro: less_trans)
  qed
  have first: "fst (get_latest_job t (set_job j2 (set_job j1 st))) = Inr j2"
    unfolding fst_get_latest_job fst_get_all store_set_job
    by (rule py_max_unique [OF in2 less2])
  \<comment> \<open>the second deleted: the latest is the first\<close>
  have del: "fst (delete j2 force (set_job j2 (set_job j1 st))) = Inr ()"
    using deletable by (auto simp: delete_def)
  have "(job_id j1, j1) \<in> set ?s2"
    using upsert_keeps [OF upsert_mem [of "job_id j1" j1 ?s0] ids] .
  then have in3: "j1 \<in> set (filter ?P (map snd ?s3))"
    using ids t1 by force
  have less3: "\<forall>x \<in> set (filter ?P (map snd ?s3)).
      x \<noteq> j1 \<longrightarrow> creation_timestamp x < creation_timestamp j1"
  proof (intro ballI impI)
    fix x
    assume x: "x \<in> set (filter ?P (map snd ?s3))" and ne: "x \<noteq> j1"
    then obtain k where "(k, x) \<in> set ?s2" and k: "k \<noteq> job_id j2" and Px: "?P x" by auto
    with sub2 ne have "(k, x) \<in> set ?s0" by auto
    then show "creation_timestamp x < creation_timestamp j1"
      using old Px by blast
  qed
  have second:
    "fst (get_latest_job t (snd (delete j2 force (set_job j2 (set_job j1 st))))) = Inr j1"
    unfolding fst_get_latest_job fst_get_all store_delete [OF deletable] store_set_job
    by (rule py_max_unique [OF in3 less3])
  from first del second show ?thesis by blast
qed

theorem latest_job_ordering_witness:
  "job_contains (fst first_created) (Task ''t'')
   \<and> job_contains (fst second_created) (Task ''t'')
   \<and> creation_timestamp (fst first_created) < creation_timestamp (fst second_created)
   \<and> job_id (fst first_created) \<noteq> job_id (fst second_created)
   \<and> fst (get_all empty_state) = []
   \<and> snd second_created = set_job (fst second_created) (set_job (fst first_created) empty_state)
   \<and> fst (get_latest_job (Task ''t'') (snd second_created)) = Inr (fst second_created)
   \<and> fst (delete (fst second_created) True (snd second_created)) = Inr ()
   \<and> fst (get_latest_job (Task ''t'') (snd (delete (fst second_created) True (snd second_created))))
       = Inr (fst first_created)"
proof -
  let ?j1 = "fst first_created" and ?j2 = "fst second_created"
  have j1: "?j1 = Job (''JOB_'' @ uuid_str (uuid4 7)) (Task ''t'') 1"
    by (simp only: first_created_def fst_create on_status_change_Nil)
  have j2: "?j2 = Job (''JOB_'' @ uuid_str (uuid4 8)) (Task ''t'') 2"
    by (simp only: second_created_def fst_create on_status_change_Nil)
  have s2: "snd second_created = set_job ?j2 (set_job ?j1 empty_state)"
    unfolding j1 j2 by (simp only: second_created_def first_created_def snd_create)
  have t1: "job_contains ?j1 (Task ''t'')" and t2: "job_contains ?j2 (Task ''t'')"
    unfolding j1 j2 by (simp_all add: job_contains_def Job_def)
  have before: "creation_timestamp ?j1 < creation_timestamp ?j2"
    unfolding j1 j2 by (simp add: Job_def)
  have "uuid_str (uuid4 7) \<noteq> uuid_str (uuid4 8)"
    using uuid_str_inj uuid4_7_8 by blast
  then have ids: "job_id ?j1 \<noteq> job_id ?j2"
    unfolding j1 j2 by (simp add: Job_def)
  have empty: "fst (get_all empty_state) = []"
    by (simp add: fst_get_all empty_state_def)
  then have older: "\<forall>j \<in> set (fst (get_all empty_state)).
      job_contains j (Task ''t'') \<longrightarrow> creation_timestamp j < creation_timestamp ?j1"
    by simp
  have forced: "is_finished ?j2 \<or> True" by simp
  note latest_job_ordering [OF t1 t2 before ids older forced]
  then show ?thesis
    using t1 t2 before ids empty s2 by (simp only: simp_thms)
qed

end
